theory Spec2Isabelle
  imports Complex_Main "HOL-Library.AList" "HOL-Library.Sublist" "HOL-Library.Multiset"
begin

section \<open>Data model of the classifier\<close>

text \<open>
  The objects of the classifier are structurally typed: a suggestion, an aggregated
  entry and a normalized entry all carry \<open>path\<close>, \<open>newFolderName\<close> and \<open>isNewFolder\<close>.
  They are records extending one base record. JavaScript numbers are modelled by
  rationals. The definitions of the first sections compute with them exactly, which
  is what the code does wherever it only compares and counts; the section on doubles
  gives the aggregator and the normalizer with the rounding of the code.
\<close>

record Destination =
  path :: "string list"
  newFolderName :: "string option"
  isNewFolder :: bool

record FolderSuggestion = Destination +
  confidence :: rat

record TrialResult =
  suggestions :: "FolderSuggestion list"
  rawResponse :: string

record Aggregated = Destination +
  totalConfidence :: rat
  count :: nat

record Choice = Destination +
  normalizedConfidence :: rat

record Normalized = Choice +
  count :: nat

record ClassificationResult =
  topChoice :: Choice
  alternatives :: "Choice list"
  isDominant :: bool
  needsReview :: bool
  reviewReason :: "string option"
  rawTrials :: "TrialResult list"

datatype error =
    ApiKeyNotSet
  | TrialCallFailed
  | InvalidConfidence
  | NewFolderNameRequired
  | AllTrialsFailed
  | NoValidSuggestions

text \<open>Truthiness of an optional string: \<open>undefined\<close> and the empty string are falsy.\<close>

fun truthy :: "string option \<Rightarrow> bool" where
  "truthy None = False"
| "truthy (Some s) = (s \<noteq> [])"

section \<open>\<open>JSON.stringify\<close> on an array of strings\<close>

definition hex_digit :: "nat \<Rightarrow> char" where
  "hex_digit n = ''0123456789abcdef'' ! (n mod 16)"

definition quote_char :: "char \<Rightarrow> string" where
  "quote_char c =
     (if c = CHR 0x08 then [CHR 0x5C, CHR ''b'']
      else if c = CHR 0x09 then [CHR 0x5C, CHR ''t'']
      else if c = CHR 0x0A then [CHR 0x5C, CHR ''n'']
      else if c = CHR 0x0C then [CHR 0x5C, CHR ''f'']
      else if c = CHR 0x0D then [CHR 0x5C, CHR ''r'']
      else if c = CHR 0x22 then [CHR 0x5C, CHR 0x22]
      else if c = CHR 0x5C then [CHR 0x5C, CHR 0x5C]
      else if (of_char c :: nat) < 32
        then [CHR 0x5C, CHR ''u'', CHR ''0'', CHR ''0'',
              hex_digit (of_char c div 16), hex_digit (of_char c)]
      else [c])"

definition quote_string :: "string \<Rightarrow> string" where
  "quote_string s = [CHR 0x22] @ concat (map quote_char s) @ [CHR 0x22]"

fun join :: "string \<Rightarrow> string list \<Rightarrow> string" where
  "join sep [] = []"
| "join sep [x] = x"
| "join sep (x # y # ys) = x @ sep @ join sep (y # ys)"

definition JSON_stringify :: "string list \<Rightarrow> string" where
  "JSON_stringify xs = ''['' @ join '','' (map quote_string xs) @ '']''"

section \<open>Candidate key and aggregation\<close>

definition getPathKey :: "string list \<Rightarrow> string option \<Rightarrow> bool \<Rightarrow> string" where
  "getPathKey p newFolderName' isNewFolder' =
     (case newFolderName' of
        Some name \<Rightarrow>
          if isNewFolder' \<and> name \<noteq> [] then JSON_stringify (p @ [''NEW:'' @ name])
          else JSON_stringify p
      | None \<Rightarrow> JSON_stringify p)"

definition suggestionKey :: "FolderSuggestion \<Rightarrow> string" where
  "suggestionKey suggestion =
     getPathKey (path suggestion) (newFolderName suggestion) (isNewFolder suggestion)"

text \<open>
  The \<open>Map\<close> of the aggregator is an association list in insertion order:
  \<^const>\<open>map_of\<close> is \<open>has\<close>/\<open>get\<close>, and \<^const>\<open>AList.update\<close> is \<open>set\<close> (an existing key
  keeps its position, a new key goes to the end). The body of the inner loop:
\<close>

definition addSuggestion ::
  "(string \<times> Aggregated) list \<Rightarrow> FolderSuggestion \<Rightarrow> (string \<times> Aggregated) list" where
  "addSuggestion aggregated suggestion =
     (let key = suggestionKey suggestion in
      case map_of aggregated key of
        Some existing \<Rightarrow>
          AList.update key
            (existing\<lparr>totalConfidence := totalConfidence existing + confidence suggestion,
                      Aggregated.count := Aggregated.count existing + 1\<rparr>) aggregated
      | None \<Rightarrow>
          AList.update key
            \<lparr>path = path suggestion, newFolderName = newFolderName suggestion,
             isNewFolder = isNewFolder suggestion,
             totalConfidence = confidence suggestion, count = 1\<rparr> aggregated)"

definition aggregateSuggestions :: "TrialResult list \<Rightarrow> (string \<times> Aggregated) list" where
  "aggregateSuggestions trials =
     foldl (\<lambda>aggregated trial. foldl addSuggestion aggregated (suggestions trial)) [] trials"

section \<open>Normalization\<close>

definition grandTotal :: "(string \<times> Aggregated) list \<Rightarrow> rat" where
  "grandTotal aggregated = foldl (\<lambda>sum item. sum + totalConfidence item) 0 (map snd aggregated)"

definition normalizeItem :: "rat \<Rightarrow> string \<times> Aggregated \<Rightarrow> Normalized" where
  "normalizeItem totalSum entry =
     (case entry of (key, item) \<Rightarrow>
        \<lparr>path = path item, newFolderName = newFolderName item,
         isNewFolder = isNewFolder item,
         normalizedConfidence = (totalConfidence item / totalSum) * 100,
         count = Aggregated.count item\<rparr>)"

text \<open>
  \<open>Array.prototype.sort\<close> is stable; with the comparator \<open>b - a\<close> on
  \<open>normalizedConfidence\<close> it sorts in descending order, which is the stable
  sort by the negated value.
\<close>

definition normalizeConfidences :: "(string \<times> Aggregated) list \<Rightarrow> Normalized list" where
  "normalizeConfidences aggregated =
     (let totalSum = grandTotal aggregated in
      if totalSum = 0 then []
      else sort_key (\<lambda>n. - normalizedConfidence n) (map (normalizeItem totalSum) aggregated))"

section \<open>The trial loop\<close>

text \<open>
  One call of the model either fails (network error, unparsable text, a value that is
  not an array) or yields the parsed array of suggestions with the raw text.
  \<open>makeTrial\<close> then checks every suggestion in order and throws at the first bad one.
\<close>

datatype response = CallFailed | Parsed "FolderSuggestion list" string

fun validateSuggestions :: "FolderSuggestion list \<Rightarrow> error option" where
  "validateSuggestions [] = None"
| "validateSuggestions (suggestion # rest) =
     (if confidence suggestion < 0 \<or> confidence suggestion > 100 then Some InvalidConfidence
      else if isNewFolder suggestion \<and> \<not> truthy (newFolderName suggestion)
        then Some NewFolderNameRequired
      else validateSuggestions rest)"

fun makeTrial :: "response \<Rightarrow> error + TrialResult" where
  "makeTrial CallFailed = Inl TrialCallFailed"
| "makeTrial (Parsed suggs text) =
     (case validateSuggestions suggs of
        Some e \<Rightarrow> Inl e
      | None \<Rightarrow> Inr \<lparr>suggestions = suggs, rawResponse = text\<rparr>)"

definition maxAttempts :: nat where
  "maxAttempts = 6"

text \<open>
  The \<open>while\<close> loop of \<open>classifyFile\<close>. \<open>responses\<close> gives the response of the
  invocation made when \<open>attempts\<close> invocations have already been made. The loop
  returns the trials and the number of attempts.
\<close>

function collectTrials ::
  "(nat \<Rightarrow> response) \<Rightarrow> TrialResult list \<Rightarrow> nat \<Rightarrow> TrialResult list \<times> nat" where
  "collectTrials responses trials attempts =
     (if length trials < 3 \<and> attempts < maxAttempts then
        (case makeTrial (responses attempts) of
           Inr trial \<Rightarrow> collectTrials responses (trials @ [trial]) (attempts + 1)
         | Inl err \<Rightarrow> collectTrials responses trials (attempts + 1))
      else (trials, attempts))"
  by pat_completeness auto
termination
  by (relation "measure (\<lambda>(responses, trials, attempts). maxAttempts - attempts)") auto

section \<open>The dominance decision\<close>

definition hasNewFolderInSingleTrial :: "Normalized list \<Rightarrow> bool" where
  "hasNewFolderInSingleTrial normalized =
     list_ex (\<lambda>n. isNewFolder n \<and> Normalized.count n = 1) normalized"

definition isNewFolderSuggestedMultipleTimes ::
  "Normalized list \<Rightarrow> TrialResult list \<Rightarrow> bool" where
  "isNewFolderSuggestedMultipleTimes normalized trials =
     (let newFolderSuggestions = filter (\<lambda>n. isNewFolder n) normalized in
      if length newFolderSuggestions = 0 then False
      else list_ex (\<lambda>n. Normalized.count n \<ge> 2) newFolderSuggestions)"

definition absoluteThreshold :: "Normalized \<Rightarrow> bool" where
  "absoluteThreshold topItem = (normalizedConfidence topItem \<ge> 50)"

definition relativeDominance :: "Normalized \<Rightarrow> Normalized list \<Rightarrow> bool" where
  "relativeDominance topItem alts =
     (case alts of
        [] \<Rightarrow> True
      | second # _ \<Rightarrow> normalizedConfidence topItem \<ge> 2 * normalizedConfidence second)"

definition newFolderNeedsReview ::
  "Normalized \<Rightarrow> Normalized list \<Rightarrow> TrialResult list \<Rightarrow> bool" where
  "newFolderNeedsReview topItem alts trials =
     (isNewFolder topItem \<and>
      (\<not> isNewFolderSuggestedMultipleTimes (topItem # alts) trials
       \<or> Normalized.count topItem < 3 \<or> normalizedConfidence topItem < 50))"

definition reviewReasons ::
  "Normalized \<Rightarrow> Normalized list \<Rightarrow> TrialResult list \<Rightarrow> string list" where
  "reviewReasons topItem alts trials =
     (if \<not> absoluteThreshold topItem then [''low absolute confidence''] else [])
     @ (if \<not> relativeDominance topItem alts \<and> length alts > 0 then [''close alternatives''] else [])
     @ (if newFolderNeedsReview topItem alts trials
          then [''new folder suggestion needs verification''] else [])
     @ (if hasNewFolderInSingleTrial (topItem # alts)
          then [''new folder suggested in only one trial''] else [])"

definition toChoice :: "Normalized \<Rightarrow> Choice" where
  "toChoice n =
     \<lparr>path = path n, newFolderName = newFolderName n, isNewFolder = isNewFolder n,
      normalizedConfidence = normalizedConfidence n\<rparr>"

text \<open>
  The part of \<open>classifyFile\<close> after the ranking is known to be non-empty:
  \<open>topItem\<close> is \<open>normalized[0]\<close> and \<open>alts\<close> is \<open>normalized.slice(1)\<close>.
\<close>

definition decide ::
  "Normalized \<Rightarrow> Normalized list \<Rightarrow> TrialResult list \<Rightarrow> ClassificationResult" where
  "decide topItem alts trials =
     (let dominant = (absoluteThreshold topItem \<and> relativeDominance topItem alts
                      \<and> \<not> newFolderNeedsReview topItem alts trials
                      \<and> \<not> hasNewFolderInSingleTrial (topItem # alts));
          reasons = reviewReasons topItem alts trials
      in \<lparr>topChoice = toChoice topItem,
          alternatives = map toChoice alts,
          isDominant = dominant,
          needsReview = (\<not> dominant),
          reviewReason = (if length reasons > 0 then Some (join ''; '' reasons) else None),
          rawTrials = trials\<rparr>)"

definition classifyFile ::
  "string option \<Rightarrow> (nat \<Rightarrow> response) \<Rightarrow> error + ClassificationResult" where
  "classifyFile apiKey responses =
     (if \<not> truthy apiKey then Inl ApiKeyNotSet
      else case collectTrials responses [] 0 of
        (trials, attempts) \<Rightarrow>
          if length trials = 0 then Inl AllTrialsFailed
          else (case normalizeConfidences (aggregateSuggestions trials) of
                  [] \<Rightarrow> Inl NoValidSuggestions
                | topItem # alts \<Rightarrow> Inr (decide topItem alts trials)))"

section \<open>The same computation on doubles\<close>













section \<open>Vocabulary for the properties\<close>

text \<open>
  The trial that one invocation yields when \<open>makeTrial\<close> returns; the trials yielded by
  the invocations \<open>m, ..., n - 1\<close>; and the number of invocations among the first \<open>n\<close>
  on which \<open>makeTrial\<close> throws.
\<close>

definition trialOf :: "(nat \<Rightarrow> response) \<Rightarrow> nat \<Rightarrow> TrialResult option" where
  "trialOf responses i = (case makeTrial (responses i) of Inr trial \<Rightarrow> Some trial | Inl err \<Rightarrow> None)"

definition collectedTrials :: "(nat \<Rightarrow> response) \<Rightarrow> nat \<Rightarrow> nat \<Rightarrow> TrialResult list" where
  "collectedTrials responses m n = List.map_filter (trialOf responses) [m..<n]"

definition failedAttempts :: "(nat \<Rightarrow> response) \<Rightarrow> nat \<Rightarrow> nat" where
  "failedAttempts responses n = length (filter (\<lambda>i. trialOf responses i = None) [0..<n])"

text \<open>
  In the words of the specification a sample is usable if it holds at least one valid
  suggestion. Every suggestion of a trial that \<open>makeTrial\<close> returns has passed the
  validation, so such a trial is usable exactly when its array is not empty.
\<close>

definition usableSample :: "TrialResult \<Rightarrow> bool" where
  "usableSample t = (suggestions t \<noteq> [])"

declare collectTrials.simps [simp del]

text \<open>
  All suggestions of a list of trials in the order the aggregator visits them; the
  suggestions carrying a given key; the number of trials in which a key occurs; the
  entry a first sighting seeds, and an entry after further suggestions were added.
\<close>

definition allSuggestions :: "TrialResult list \<Rightarrow> FolderSuggestion list" where
  "allSuggestions trials = concat (map suggestions trials)"

definition withKey :: "string \<Rightarrow> FolderSuggestion list \<Rightarrow> FolderSuggestion list" where
  "withKey k suggs = filter (\<lambda>s. suggestionKey s = k) suggs"

definition samplesProposing :: "string \<Rightarrow> TrialResult list \<Rightarrow> nat" where
  "samplesProposing k trials = length (filter (\<lambda>t. withKey k (suggestions t) \<noteq> []) trials)"

definition seedEntry :: "FolderSuggestion \<Rightarrow> Aggregated" where
  "seedEntry s =
     \<lparr>path = path s, newFolderName = newFolderName s, isNewFolder = isNewFolder s,
      totalConfidence = confidence s, count = 1\<rparr>"

definition addToEntry :: "Aggregated \<Rightarrow> FolderSuggestion list \<Rightarrow> Aggregated" where
  "addToEntry e suggs =
     e\<lparr>totalConfidence := totalConfidence e + sum_list (map confidence suggs),
       Aggregated.count := Aggregated.count e + length suggs\<rparr>"







section \<open>Example inputs\<close>

definition existing :: "string \<Rightarrow> rat \<Rightarrow> nat \<Rightarrow> Normalized" where
  "existing name c k =
     \<lparr>path = [name], newFolderName = None, isNewFolder = False,
      normalizedConfidence = c, count = k\<rparr>"

definition novel :: "string \<Rightarrow> rat \<Rightarrow> nat \<Rightarrow> Normalized" where
  "novel name c k =
     \<lparr>path = [], newFolderName = Some name, isNewFolder = True,
      normalizedConfidence = c, count = k\<rparr>"

definition suggest :: "string list \<Rightarrow> rat \<Rightarrow> FolderSuggestion" where
  "suggest p c = \<lparr>path = p, newFolderName = None, isNewFolder = False, confidence = c\<rparr>"

definition suggestNew :: "string list \<Rightarrow> string \<Rightarrow> rat \<Rightarrow> FolderSuggestion" where
  "suggestNew p name c = \<lparr>path = p, newFolderName = Some name, isNewFolder = True, confidence = c\<rparr>"

definition trial :: "FolderSuggestion list \<Rightarrow> TrialResult" where
  "trial suggs = \<lparr>suggestions = suggs, rawResponse = ''raw''\<rparr>"

definition failsTwice :: "nat \<Rightarrow> response" where
  "failsTwice i =
     (if i = 0 then CallFailed
      else if i = 1 then Parsed [suggest [''a''] 150] ''raw''
      else Parsed [suggest [''a''] 80] ''raw'')"

definition alwaysFails :: "nat \<Rightarrow> response" where
  "alwaysFails i = (if even i then CallFailed else Parsed [suggestNew [''a''] [] 80] ''raw'')"

definition agreeing :: "TrialResult list" where
  "agreeing =
     [trial [suggest [''a''] 60, suggest [''b''] 95],
      trial [suggest [''a''] 60],
      trial [suggest [''a''] 60]]"

definition emptyArrays :: "nat \<Rightarrow> response" where
  "emptyArrays i = Parsed [] ''raw''"

definition failsThenEmpty :: "nat \<Rightarrow> response" where
  "failsThenEmpty i = (if i < 3 then CallFailed else Parsed [] ''raw'')"

definition zeroConfidence :: "nat \<Rightarrow> response" where
  "zeroConfidence i = Parsed [suggest [''a''] 0] ''raw''"

definition repeatsKey :: "TrialResult list" where
  "repeatsKey = [trial [suggest [''a''] 50, suggest [''a''] 30]]"

definition repeatedTrial :: TrialResult where
  "repeatedTrial =
     trial [suggestNew [''a''] ''x'' 90, suggestNew [''a''] ''x'' 80, suggestNew [''a''] ''x'' 70]"

definition repeatsNewFolder :: "nat \<Rightarrow> response" where
  "repeatsNewFolder i =
     (if i = 0
      then Parsed [suggestNew [''a''] ''x'' 90, suggestNew [''a''] ''x'' 80,
                   suggestNew [''a''] ''x'' 70] ''raw''
      else CallFailed)"

definition collidingThird :: "nat \<Rightarrow> response" where
  "collidingThird i =
     (if i < 2 then Parsed [suggestNew [''a''] ''x'' 90] ''raw''
      else Parsed [suggest [''a'', ''NEW:x''] 90] ''raw'')"









section \<open>The decision rules\<close>

lemma isDominant_decide:
  "isDominant (decide t a tr) =
     (absoluteThreshold t \<and> relativeDominance t a \<and> \<not> newFolderNeedsReview t a tr
      \<and> \<not> hasNewFolderInSingleTrial (t # a))"
  by (simp add: decide_def Let_def)

lemma relativeDominance_iff:
  "relativeDominance t a = (a = [] \<or> normalizedConfidence t \<ge> 2 * normalizedConfidence (hd a))"
  by (cases a) (simp_all add: relativeDominance_def)

lemma low_in_reasons:
  "''low absolute confidence'' \<in> set (reviewReasons t a tr) \<longleftrightarrow> \<not> absoluteThreshold t"
  by (simp add: reviewReasons_def)

lemma close_in_reasons:
  "''close alternatives'' \<in> set (reviewReasons t a tr) \<longleftrightarrow> \<not> relativeDominance t a"
  by (cases a) (simp_all add: reviewReasons_def relativeDominance_def)

lemma unverified_in_reasons:
  "''new folder suggestion needs verification'' \<in> set (reviewReasons t a tr)
     \<longleftrightarrow> newFolderNeedsReview t a tr"
  by (simp add: reviewReasons_def)

lemma single_in_reasons:
  "''new folder suggested in only one trial'' \<in> set (reviewReasons t a tr)
     \<longleftrightarrow> hasNewFolderInSingleTrial (t # a)"
  by (simp add: reviewReasons_def)

text \<open>
  C1. For a ranking \<open>t # a\<close>, the verdict is dominant only if the top candidate's
  normalized confidence is at least 50 and either there is no other candidate or the
  top is at least twice the second. The reason "low absolute confidence" is recorded
  exactly when the first test fails, and "close alternatives" exactly when the second
  fails. At top 51 and second 30 the second reason is recorded; at top 67 and second 33
  neither is and the verdict is dominant.
\<close>

theorem dominance_rules:
  "(isDominant (decide t a tr) \<longrightarrow>
      normalizedConfidence t \<ge> 50
      \<and> (a = [] \<or> normalizedConfidence t \<ge> 2 * normalizedConfidence (hd a)))
   \<and> (''low absolute confidence'' \<in> set (reviewReasons t a tr)
        \<longleftrightarrow> normalizedConfidence t < 50)
   \<and> (''close alternatives'' \<in> set (reviewReasons t a tr)
        \<longleftrightarrow> a \<noteq> [] \<and> normalizedConfidence t < 2 * normalizedConfidence (hd a))"
  unfolding isDominant_decide low_in_reasons close_in_reasons relativeDominance_iff
  by (auto simp: absoluteThreshold_def)

theorem dominance_rules_witness:
  "''close alternatives''
      \<in> set (reviewReasons (existing ''a'' 51 3) [existing ''b'' 30 2, existing ''c'' 19 1] [])
   \<and> ''low absolute confidence''
      \<notin> set (reviewReasons (existing ''a'' 51 3) [existing ''b'' 30 2, existing ''c'' 19 1] [])
   \<and> \<not> isDominant (decide (existing ''a'' 51 3) [existing ''b'' 30 2, existing ''c'' 19 1] [])
   \<and> ''close alternatives'' \<notin> set (reviewReasons (existing ''a'' 67 3) [existing ''b'' 33 2] [])
   \<and> ''low absolute confidence'' \<notin> set (reviewReasons (existing ''a'' 67 3) [existing ''b'' 33 2] [])
   \<and> isDominant (decide (existing ''a'' 67 3) [existing ''b'' 33 2] [])"
  using dominance_rules [of "existing ''a'' 51 3" "[existing ''b'' 30 2, existing ''c'' 19 1]" "[]"]
        dominance_rules [of "existing ''a'' 67 3" "[existing ''b'' 33 2]" "[]"]
  by (simp add: existing_def isDominant_decide absoluteThreshold_def relativeDominance_def
        newFolderNeedsReview_def hasNewFolderInSingleTrial_def)

text \<open>
  C5. If any candidate of the ranking, the top one or a later one, is a new folder
  with count exactly 1, the reason "new folder suggested in only one trial" is
  recorded and the verdict is not dominant, whatever the other three tests say.
\<close>

theorem single_trial_new_folder_blocks:
  assumes "\<exists>n \<in> set (t # a). isNewFolder n \<and> Normalized.count n = 1"
  shows "''new folder suggested in only one trial'' \<in> set (reviewReasons t a tr)
         \<and> \<not> isDominant (decide t a tr) \<and> needsReview (decide t a tr)"
proof -
  from assms have "hasNewFolderInSingleTrial (t # a)"
    unfolding hasNewFolderInSingleTrial_def list_ex_iff by blast
  then show ?thesis
    by (simp add: single_in_reasons isDominant_decide) (simp add: decide_def Let_def)
qed

theorem single_trial_new_folder_blocks_witness:
  "absoluteThreshold (existing ''a'' 80 3)
   \<and> relativeDominance (existing ''a'' 80 3) [novel ''x'' 20 1]
   \<and> \<not> newFolderNeedsReview (existing ''a'' 80 3) [novel ''x'' 20 1] []
   \<and> ''new folder suggested in only one trial''
        \<in> set (reviewReasons (existing ''a'' 80 3) [novel ''x'' 20 1] [])
   \<and> \<not> isDominant (decide (existing ''a'' 80 3) [novel ''x'' 20 1] [])"
proof -
  have h: "\<exists>n \<in> set (existing ''a'' 80 3 # [novel ''x'' 20 1]).
             isNewFolder n \<and> Normalized.count n = 1"
    by (simp add: novel_def)
  show ?thesis
    using single_trial_new_folder_blocks [OF h, of "[]"]
    by (simp add: existing_def novel_def absoluteThreshold_def relativeDominance_def
          newFolderNeedsReview_def)
qed

text \<open>
  C6. In every result of the decision, \<open>needsReview\<close> is the negation of
  \<open>isDominant\<close>; the list of reasons is empty, and \<open>reviewReason\<close> absent, exactly when
  the verdict is dominant; otherwise \<open>reviewReason\<close> is the reasons joined by "; ", and
  the reasons always appear in the order of the four rules.
\<close>

theorem verdict_invariants:
  "needsReview (decide t a tr) = (\<not> isDominant (decide t a tr))
   \<and> (reviewReasons t a tr = [] \<longleftrightarrow> isDominant (decide t a tr))
   \<and> reviewReason (decide t a tr) =
       (if reviewReasons t a tr = [] then None else Some (join ''; '' (reviewReasons t a tr)))
   \<and> (reviewReason (decide t a tr) = None \<longleftrightarrow> isDominant (decide t a tr))
   \<and> subseq (reviewReasons t a tr)
        [''low absolute confidence'', ''close alternatives'',
         ''new folder suggestion needs verification'',
         ''new folder suggested in only one trial'']"
proof -
  have nr: "needsReview (decide t a tr) = (\<not> isDominant (decide t a tr))"
    by (simp add: decide_def Let_def)
  have rel: "\<not> relativeDominance t a \<Longrightarrow> 0 < length a"
    by (cases a) (simp_all add: relativeDominance_def)
  have empty: "reviewReasons t a tr = [] \<longleftrightarrow> isDominant (decide t a tr)"
    unfolding isDominant_decide using rel by (auto simp: reviewReasons_def)
  have rr: "reviewReason (decide t a tr) =
       (if reviewReasons t a tr = [] then None else Some (join ''; '' (reviewReasons t a tr)))"
    by (simp add: decide_def Let_def)
  have ord: "subseq (reviewReasons t a tr)
        [''low absolute confidence'', ''close alternatives'',
         ''new folder suggestion needs verification'',
         ''new folder suggested in only one trial'']"
    by (simp add: reviewReasons_def)
  from nr empty rr ord show ?thesis by simp
qed

theorem verdict_invariants_witness:
  "needsReview (decide (novel ''x'' 40 2) [existing ''a'' 35 2, novel ''y'' 25 1] [])
   \<and> \<not> isDominant (decide (novel ''x'' 40 2) [existing ''a'' 35 2, novel ''y'' 25 1] [])
   \<and> reviewReasons (novel ''x'' 40 2) [existing ''a'' 35 2, novel ''y'' 25 1] [] =
        [''low absolute confidence'', ''close alternatives'',
         ''new folder suggestion needs verification'',
         ''new folder suggested in only one trial'']
   \<and> reviewReason (decide (novel ''x'' 40 2) [existing ''a'' 35 2, novel ''y'' 25 1] []) =
        Some ''low absolute confidence; close alternatives; new folder suggestion needs verification; new folder suggested in only one trial''"
  using verdict_invariants [of "novel ''x'' 40 2" "[existing ''a'' 35 2, novel ''y'' 25 1]" "[]"]
  by (simp add: existing_def novel_def reviewReasons_def absoluteThreshold_def
        relativeDominance_def newFolderNeedsReview_def hasNewFolderInSingleTrial_def
        isNewFolderSuggestedMultipleTimes_def)

section \<open>The trial loop: attempts and collected trials\<close>

lemma collectedTrials_empty [simp]: "collectedTrials responses m m = []"
  by (simp add: collectedTrials_def List.map_filter_simps)

lemma collectedTrials_first:
  "m < n \<Longrightarrow> collectedTrials responses m n =
     (case trialOf responses m of Some t \<Rightarrow> [t] | None \<Rightarrow> []) @ collectedTrials responses (Suc m) n"
  by (simp add: collectedTrials_def upt_conv_Cons List.map_filter_simps split: option.splits)

lemma collectedTrials_last:
  "m \<le> n \<Longrightarrow> collectedTrials responses m (Suc n) =
     collectedTrials responses m n @ (case trialOf responses n of Some t \<Rightarrow> [t] | None \<Rightarrow> [])"
  by (simp add: collectedTrials_def List.map_filter_def split: option.splits)

lemma collectTrials_stop:
  "\<not> (length trials < 3 \<and> attempts < maxAttempts) \<Longrightarrow>
     collectTrials responses trials attempts = (trials, attempts)"
  by (subst collectTrials.simps) auto

lemma collectTrials_step:
  "length trials < 3 \<Longrightarrow> attempts < maxAttempts \<Longrightarrow>
     collectTrials responses trials attempts =
       collectTrials responses
         (trials @ (case trialOf responses attempts of Some t \<Rightarrow> [t] | None \<Rightarrow> []))
         (Suc attempts)"
  by (subst collectTrials.simps) (simp add: trialOf_def split: sum.splits)

lemma collectTrials_spec:
  "collectTrials responses trials attempts = (ts, n) \<Longrightarrow>
     attempts \<le> n
     \<and> ts = trials @ collectedTrials responses attempts n
     \<and> (\<not> (length trials < 3 \<and> attempts < maxAttempts) \<longrightarrow> n = attempts)
     \<and> (length trials < 3 \<and> attempts < maxAttempts \<longrightarrow>
          n \<le> maxAttempts \<and> (length ts = 3 \<or> n = maxAttempts)
          \<and> (\<forall>m. attempts \<le> m \<and> m < n \<longrightarrow>
                length (trials @ collectedTrials responses attempts m) < 3))"
proof (induction responses trials attempts arbitrary: ts n rule: collectTrials.induct)
  case (1 responses trials attempts)
  show ?case
  proof (cases "length trials < 3 \<and> attempts < maxAttempts")
    case False
    with "1.prems" show ?thesis by (simp add: collectTrials_stop)
  next
    case True
    define new where "new = (case trialOf responses attempts of Some t \<Rightarrow> [t] | None \<Rightarrow> [])"
    have len_new: "length new \<le> 1"
      by (simp add: new_def split: option.splits)
    from True "1.prems" have run: "collectTrials responses (trials @ new) (Suc attempts) = (ts, n)"
      by (simp add: collectTrials_step new_def)
    have ih0: "attempts + 1 \<le> n
       \<and> ts = (trials @ new) @ collectedTrials responses (attempts + 1) n
       \<and> (\<not> (length (trials @ new) < 3 \<and> attempts + 1 < maxAttempts) \<longrightarrow> n = attempts + 1)
       \<and> (length (trials @ new) < 3 \<and> attempts + 1 < maxAttempts \<longrightarrow>
            n \<le> maxAttempts \<and> (length ts = 3 \<or> n = maxAttempts)
            \<and> (\<forall>m. attempts + 1 \<le> m \<and> m < n \<longrightarrow>
                  length ((trials @ new) @ collectedTrials responses (attempts + 1) m) < 3))"
    proof (cases "makeTrial (responses attempts)")
      case (Inl e)
      then have new: "new = []" by (simp add: new_def trialOf_def)
      with run have r: "collectTrials responses trials (attempts + 1) = (ts, n)" by simp
      show ?thesis unfolding new append_Nil2 by (rule "1.IH"(1) [OF True Inl r])
    next
      case (Inr t)
      then have new: "new = [t]" by (simp add: new_def trialOf_def)
      with run have r: "collectTrials responses (trials @ [t]) (attempts + 1) = (ts, n)" by simp
      show ?thesis unfolding new by (rule "1.IH"(2) [OF True Inr r])
    qed
    have ih: "Suc attempts \<le> n
       \<and> ts = (trials @ new) @ collectedTrials responses (Suc attempts) n
       \<and> (\<not> (length (trials @ new) < 3 \<and> Suc attempts < maxAttempts) \<longrightarrow> n = Suc attempts)
       \<and> (length (trials @ new) < 3 \<and> Suc attempts < maxAttempts \<longrightarrow>
            n \<le> maxAttempts \<and> (length ts = 3 \<or> n = maxAttempts)
            \<and> (\<forall>m. Suc attempts \<le> m \<and> m < n \<longrightarrow>
                  length ((trials @ new) @ collectedTrials responses (Suc attempts) m) < 3))"
      unfolding Suc_eq_plus1 by (rule ih0)
    have split: "\<And>m. attempts < m \<Longrightarrow>
        collectedTrials responses attempts m = new @ collectedTrials responses (Suc attempts) m"
      by (simp add: collectedTrials_first new_def)
    from ih have le: "attempts < n" by simp
    have A: "attempts \<le> n" using le by simp
    have B: "ts = trials @ collectedTrials responses attempts n"
      using ih split [OF le] by simp
    have C: "n \<le> maxAttempts" using ih True by (cases "length (trials @ new) < 3 \<and> Suc attempts < maxAttempts") auto
    have D: "length ts = 3 \<or> n = maxAttempts"
    proof (cases "length (trials @ new) < 3 \<and> Suc attempts < maxAttempts")
      case True
      with ih show ?thesis by blast
    next
      case False
      with ih have n: "n = Suc attempts" by blast
      with ih have "ts = trials @ new" by simp
      with False True len_new n show ?thesis by auto
    qed
    have E: "\<forall>m. attempts \<le> m \<and> m < n \<longrightarrow> length (trials @ collectedTrials responses attempts m) < 3"
    proof (intro allI impI)
      fix m assume m: "attempts \<le> m \<and> m < n"
      show "length (trials @ collectedTrials responses attempts m) < 3"
      proof (cases "m = attempts")
        case True
        with \<open>length trials < 3 \<and> attempts < maxAttempts\<close> show ?thesis by simp
      next
        case False
        with m have m': "Suc attempts \<le> m" "m < n" "attempts < m" by simp_all
        then have "n \<noteq> Suc attempts" by simp
        with ih have "length (trials @ new) < 3 \<and> Suc attempts < maxAttempts" by blast
        with ih m' have "length ((trials @ new) @ collectedTrials responses (Suc attempts) m) < 3"
          by blast
        then show ?thesis using split [OF m'(3)] by simp
      qed
    qed
    from A B C D E True show ?thesis by blast
  qed
qed

lemma collectTrials_oracle_cong:
  "collectTrials responses trials attempts = (ts, n) \<Longrightarrow>
     (\<forall>i. attempts \<le> i \<and> i < n \<longrightarrow> responses' i = responses i) \<Longrightarrow>
     collectTrials responses' trials attempts = (ts, n)"
proof (induction responses trials attempts arbitrary: ts n rule: collectTrials.induct)
  case (1 responses trials attempts)
  show ?case
  proof (cases "length trials < 3 \<and> attempts < maxAttempts")
    case False
    with "1.prems" show ?thesis by (simp add: collectTrials_stop)
  next
    case True
    define new where "new = (case trialOf responses attempts of Some t \<Rightarrow> [t] | None \<Rightarrow> [])"
    from True "1.prems" have run: "collectTrials responses (trials @ new) (Suc attempts) = (ts, n)"
      by (simp add: collectTrials_step new_def)
    from collectTrials_spec [OF run] have lt: "attempts < n" by simp
    with "1.prems"(2) have same: "responses' attempts = responses attempts" by simp
    then have new': "(case trialOf responses' attempts of Some t \<Rightarrow> [t] | None \<Rightarrow> []) = new"
      by (simp add: new_def trialOf_def)
    from "1.prems"(2) have rest: "\<forall>i. attempts + 1 \<le> i \<and> i < n \<longrightarrow> responses' i = responses i"
      by simp
    have "collectTrials responses' (trials @ new) (attempts + 1) = (ts, n)"
    proof (cases "makeTrial (responses attempts)")
      case (Inl e)
      then have new: "new = []" by (simp add: new_def trialOf_def)
      with run have r: "collectTrials responses trials (attempts + 1) = (ts, n)" by simp
      show ?thesis unfolding new append_Nil2 by (rule "1.IH"(1) [OF True Inl r rest])
    next
      case (Inr t)
      then have new: "new = [t]" by (simp add: new_def trialOf_def)
      with run have r: "collectTrials responses (trials @ [t]) (attempts + 1) = (ts, n)" by simp
      show ?thesis unfolding new by (rule "1.IH"(2) [OF True Inr r rest])
    qed
    with True new' show ?thesis by (simp add: collectTrials_step)
  qed
qed

lemma length_collectedTrials_failed:
  "length (collectedTrials responses 0 n) + failedAttempts responses n = n"
proof (induction n)
  case 0
  show ?case by (simp add: failedAttempts_def)
next
  case (Suc n)
  then show ?case
    by (simp add: collectedTrials_last failedAttempts_def split: option.splits)
qed

lemma collectedTrials_Nil_iff:
  "collectedTrials responses 0 n = [] \<longleftrightarrow> (\<forall>i<n. trialOf responses i = None)"
  by (induction n) (auto simp: collectedTrials_last less_Suc_eq split: option.splits)

lemma collectTrials_from_start:
  assumes "collectTrials responses [] 0 = (ts, n)"
  shows "ts = collectedTrials responses 0 n" and "n \<le> maxAttempts"
    and "length ts = 3 \<or> n = maxAttempts"
    and "\<forall>m<n. length (collectedTrials responses 0 m) < 3"
  using collectTrials_spec [OF assms] by (auto simp: maxAttempts_def)

lemma trialOf_Some:
  assumes "trialOf responses i = Some t"
  shows "validateSuggestions (suggestions t) = None"
    and "\<exists>text. responses i = Parsed (suggestions t) text"
proof -
  from assms obtain suggs raw where r: "responses i = Parsed suggs raw"
    by (cases "responses i") (simp_all add: trialOf_def)
  with assms have v: "validateSuggestions suggs = None"
    and t: "t = \<lparr>suggestions = suggs, rawResponse = raw\<rparr>"
    by (auto simp: trialOf_def split: option.splits)
  from v t show "validateSuggestions (suggestions t) = None" by simp
  from r t show "\<exists>text. responses i = Parsed (suggestions t) text" by simp
qed

lemma collectedTrials_member:
  "t \<in> set (collectedTrials responses 0 n) \<Longrightarrow> \<exists>i<n. trialOf responses i = Some t"
proof (induction n)
  case 0
  then show ?case by simp
next
  case (Suc n)
  then show ?case
    by (auto simp: collectedTrials_last less_Suc_eq split: option.splits)
qed

lemma collect_emptyArrays:
  "collectTrials emptyArrays [] 0 = ([trial [], trial [], trial []], 3)"
  by (simp add: collectTrials.simps emptyArrays_def maxAttempts_def trial_def)

lemma empty_trials_not_usable:
  "filter usableSample [trial [], trial [], trial []] = []"
  by (simp add: usableSample_def trial_def)

text \<open>
  C8, as the code has it. The loop makes its invocations in sequence, at most
  \<open>maxAttempts = 6\<close> of them, and stops as soon as three trials are collected, where a
  trial is collected whenever \<open>makeTrial\<close> returns: fewer than three were collected
  before each invocation, and the loop ends with three trials or with the budget spent.
  An invocation on which \<open>makeTrial\<close> throws (a failed call or a malformed response)
  counts as an attempt and adds no trial. Every collected trial has passed the
  validation, and all collected trials are usable in the sense of the specification
  when no response is an empty array. Invocations after the last attempt are never
  consulted. With two failures followed by successes the loop returns three usable
  trials after five attempts.
\<close>

theorem sampler_bounded:
  assumes "collectTrials responses [] 0 = (trials, attempts)"
  shows "attempts \<le> maxAttempts \<and> maxAttempts = 6 \<and> length trials \<le> 3
     \<and> (length trials = 3 \<or> attempts = maxAttempts)
     \<and> (\<forall>m<attempts. length (collectedTrials responses 0 m) < 3)
     \<and> trials = collectedTrials responses 0 attempts
     \<and> attempts = length trials + failedAttempts responses attempts
     \<and> (\<forall>t \<in> set trials. validateSuggestions (suggestions t) = None)
     \<and> ((\<forall>i<attempts. \<forall>text. responses i \<noteq> Parsed [] text) \<longrightarrow>
           (\<forall>t \<in> set trials. usableSample t))
     \<and> (\<forall>responses'. (\<forall>i<attempts. responses' i = responses i) \<longrightarrow>
           collectTrials responses' [] 0 = (trials, attempts))"
proof -
  note facts = collectTrials_from_start [OF assms]
  have len: "length trials \<le> 3"
  proof (cases attempts)
    case 0
    with facts(1) show ?thesis by simp
  next
    case (Suc k)
    with facts(4) have "length (collectedTrials responses 0 k) < 3" by simp
    moreover have "length trials \<le> Suc (length (collectedTrials responses 0 k))"
      using facts(1) Suc by (simp add: collectedTrials_last split: option.splits)
    ultimately show ?thesis by simp
  qed
  have cnt: "attempts = length trials + failedAttempts responses attempts"
    using length_collectedTrials_failed [of responses attempts] facts(1) by simp
  have valid: "\<forall>t \<in> set trials. validateSuggestions (suggestions t) = None"
  proof
    fix t assume "t \<in> set trials"
    with facts(1) obtain i where "trialOf responses i = Some t"
      using collectedTrials_member by blast
    then show "validateSuggestions (suggestions t) = None"
      by (rule trialOf_Some(1))
  qed
  have usable: "(\<forall>i<attempts. \<forall>text. responses i \<noteq> Parsed [] text) \<longrightarrow>
           (\<forall>t \<in> set trials. usableSample t)"
  proof (intro impI ballI)
    fix t
    assume ne: "\<forall>i<attempts. \<forall>text. responses i \<noteq> Parsed [] text" and "t \<in> set trials"
    with facts(1) obtain i where i: "i < attempts" "trialOf responses i = Some t"
      using collectedTrials_member by blast
    from trialOf_Some(2) [OF i(2)] obtain raw where
      "responses i = Parsed (suggestions t) raw" ..
    with ne i(1) show "usableSample t"
      unfolding usableSample_def by metis
  qed
  have indep: "\<forall>responses'. (\<forall>i<attempts. responses' i = responses i) \<longrightarrow>
           collectTrials responses' [] 0 = (trials, attempts)"
    using collectTrials_oracle_cong [OF assms] by simp
  have six: "maxAttempts = 6"
    by (simp add: maxAttempts_def)
  from facts(2) six len facts(3) facts(4) facts(1) cnt valid usable indep
  show ?thesis by (intro conjI)
qed

theorem sampler_bounded_witness:
  "collectTrials failsTwice [] 0 =
     ([trial [suggest [''a''] 80], trial [suggest [''a''] 80], trial [suggest [''a''] 80]], 5)
   \<and> (5::nat) \<le> maxAttempts
   \<and> failedAttempts failsTwice 5 = 2
   \<and> filter usableSample
        [trial [suggest [''a''] 80], trial [suggest [''a''] 80], trial [suggest [''a''] 80]] =
        [trial [suggest [''a''] 80], trial [suggest [''a''] 80], trial [suggest [''a''] 80]]
   \<and> collectTrials (\<lambda>i. if i < 5 then failsTwice i else CallFailed) [] 0 =
     ([trial [suggest [''a''] 80], trial [suggest [''a''] 80], trial [suggest [''a''] 80]], 5)"
proof -
  have h: "collectTrials failsTwice [] 0 =
     ([trial [suggest [''a''] 80], trial [suggest [''a''] 80], trial [suggest [''a''] 80]], 5)"
    by (simp add: collectTrials.simps failsTwice_def maxAttempts_def suggest_def trial_def)
  have same: "\<forall>i<5. (\<lambda>i. if i < 5 then failsTwice i else CallFailed) i = failsTwice i"
    by simp
  have nonempty: "\<forall>i<5. \<forall>text. failsTwice i \<noteq> Parsed [] text"
    by (simp add: failsTwice_def)
  note sb = sampler_bounded [OF h]
  from sb have a: "(5::nat) \<le> maxAttempts" by (elim conjE)
  from sb have b: "(5::nat) = length [trial [suggest [''a''] 80], trial [suggest [''a''] 80], trial [suggest [''a''] 80]]
       + failedAttempts failsTwice 5" by (elim conjE)
  from sb have "(\<forall>i<5. \<forall>text. failsTwice i \<noteq> Parsed [] text) \<longrightarrow>
      (\<forall>t \<in> set [trial [suggest [''a''] 80], trial [suggest [''a''] 80],
                   trial [suggest [''a''] 80]]. usableSample t)"
    by (elim conjE)
  from this [THEN mp, OF nonempty]
  have u: "filter usableSample
        [trial [suggest [''a''] 80], trial [suggest [''a''] 80], trial [suggest [''a''] 80]] =
        [trial [suggest [''a''] 80], trial [suggest [''a''] 80], trial [suggest [''a''] 80]]"
    by simp
  from sb have "\<forall>responses'. (\<forall>i<5. responses' i = failsTwice i) \<longrightarrow>
      collectTrials responses' [] 0 =
        ([trial [suggest [''a''] 80], trial [suggest [''a''] 80], trial [suggest [''a''] 80]], 5)"
    by (elim conjE)
  from this [THEN spec, THEN mp, OF same]
  have c: "collectTrials (\<lambda>i. if i < 5 then failsTwice i else CallFailed) [] 0 =
        ([trial [suggest [''a''] 80], trial [suggest [''a''] 80], trial [suggest [''a''] 80]], 5)"
    .
  from b have b': "failedAttempts failsTwice 5 = 2" by simp
  from h a b' u c show ?thesis by (intro conjI)
qed

text \<open>
  C8 as stated fails when the responses are empty arrays: \<open>makeTrial\<close> returns on an
  empty array, so three of them end the loop after three attempts, with no usable
  sample collected and half of the budget unspent.
\<close>

theorem empty_arrays_fill_quota:
  "collectTrials emptyArrays [] 0 = ([trial [], trial [], trial []], 3)
   \<and> filter usableSample [trial [], trial [], trial []] = []
   \<and> (3::nat) < maxAttempts"
  using collect_emptyArrays empty_trials_not_usable by (simp add: maxAttempts_def)

lemma foldl_empty_trials:
  "\<forall>t \<in> set ts. suggestions t = [] \<Longrightarrow>
     foldl (\<lambda>aggregated trial. foldl addSuggestion aggregated (suggestions trial)) acc ts = acc"
proof (induction ts arbitrary: acc)
  case Nil
  show ?case by simp
next
  case (Cons t ts)
  from Cons.prems have t: "suggestions t = []" and rest: "\<forall>t \<in> set ts. suggestions t = []"
    by simp_all
  show ?case
    by (simp only: foldl_Cons t foldl_Nil Cons.IH [OF rest])
qed

lemma aggregate_no_usable:
  assumes "filter usableSample ts = []"
  shows "aggregateSuggestions ts = []"
proof -
  from assms have "\<forall>t \<in> set ts. \<not> usableSample t"
    by (simp only: filter_empty_conv)
  then have "\<forall>t \<in> set ts. suggestions t = []"
    by (simp only: usableSample_def not_not)
  then show ?thesis
    unfolding aggregateSuggestions_def by (rule foldl_empty_trials)
qed

text \<open>
  C9, as the code has it. \<open>classifyFile\<close> raises "All classification trials failed"
  exactly when \<open>makeTrial\<close> throws on every invocation of the whole budget, so that no
  trial is collected, and then all six attempts were made. When trials are collected
  and none of them is usable, that is when all of them are empty arrays, the error is
  "No valid suggestions received from any trial". The error of a single failed or
  malformed invocation is never the result of \<open>classifyFile\<close>.
\<close>

theorem all_trials_failed_iff:
  "(classifyFile apiKey responses = Inl AllTrialsFailed
      \<longleftrightarrow> truthy apiKey \<and> (\<forall>i<maxAttempts. trialOf responses i = None))
   \<and> ((\<forall>i<maxAttempts. trialOf responses i = None)
      \<longleftrightarrow> collectTrials responses [] 0 = ([], maxAttempts))
   \<and> (fst (collectTrials responses [] 0) = []
      \<longleftrightarrow> collectTrials responses [] 0 = ([], maxAttempts))
   \<and> (truthy apiKey \<and> fst (collectTrials responses [] 0) \<noteq> []
        \<and> filter usableSample (fst (collectTrials responses [] 0)) = []
      \<longrightarrow> classifyFile apiKey responses = Inl NoValidSuggestions)
   \<and> classifyFile apiKey responses
        \<notin> {Inl TrialCallFailed, Inl InvalidConfidence, Inl NewFolderNameRequired}"
proof -
  obtain ts n where run: "collectTrials responses [] 0 = (ts, n)"
    by (cases "collectTrials responses [] 0")
  note facts = collectTrials_from_start [OF run]
  have empty: "ts = [] \<longleftrightarrow> (\<forall>i<maxAttempts. trialOf responses i = None)"
  proof
    assume "ts = []"
    with facts(3) have "n = maxAttempts" by simp
    with facts(1) \<open>ts = []\<close> have "collectedTrials responses 0 maxAttempts = []" by simp
    then show "\<forall>i<maxAttempts. trialOf responses i = None"
      by (simp only: collectedTrials_Nil_iff)
  next
    assume "\<forall>i<maxAttempts. trialOf responses i = None"
    with facts(2) have "\<forall>i<n. trialOf responses i = None" by simp
    with facts(1) show "ts = []" by (simp add: collectedTrials_Nil_iff)
  qed
  have n6: "ts = [] \<Longrightarrow> n = maxAttempts"
    using facts(3) by simp
  have A: "classifyFile apiKey responses = Inl AllTrialsFailed \<longleftrightarrow> truthy apiKey \<and> ts = []"
    by (simp add: classifyFile_def run split: list.splits)
  have D: "classifyFile apiKey responses
        \<notin> {Inl TrialCallFailed, Inl InvalidConfidence, Inl NewFolderNameRequired}"
    by (simp add: classifyFile_def run split: list.splits)
  have E: "classifyFile apiKey responses = Inl NoValidSuggestions"
    if "truthy apiKey" and "ts \<noteq> []" and none: "filter usableSample ts = []"
  proof -
    from none have "aggregateSuggestions ts = []"
      by (rule aggregate_no_usable)
    then have "normalizeConfidences (aggregateSuggestions ts) = []"
      by (simp add: normalizeConfidences_def grandTotal_def)
    with that(1,2) show ?thesis
      by (simp add: classifyFile_def run)
  qed
  have c1: "classifyFile apiKey responses = Inl AllTrialsFailed
      \<longleftrightarrow> truthy apiKey \<and> (\<forall>i<maxAttempts. trialOf responses i = None)"
    using A empty by simp
  have c2: "(\<forall>i<maxAttempts. trialOf responses i = None)
      \<longleftrightarrow> collectTrials responses [] 0 = ([], maxAttempts)"
    using empty n6 run by auto
  have c3: "fst (collectTrials responses [] 0) = []
      \<longleftrightarrow> collectTrials responses [] 0 = ([], maxAttempts)"
    using n6 run by auto
  have c4: "truthy apiKey \<and> fst (collectTrials responses [] 0) \<noteq> []
        \<and> filter usableSample (fst (collectTrials responses [] 0)) = []
      \<longrightarrow> classifyFile apiKey responses = Inl NoValidSuggestions"
    using E run by simp
  from c1 c2 c3 c4 D show ?thesis by (intro conjI)
qed

theorem all_trials_failed_iff_witness:
  "classifyFile (Some ''key'') alwaysFails = Inl AllTrialsFailed
   \<and> collectTrials alwaysFails [] 0 = ([], 6)
   \<and> classifyFile (Some ''key'') failsTwice \<noteq> Inl AllTrialsFailed
   \<and> classifyFile (Some ''key'') emptyArrays = Inl NoValidSuggestions"
proof -
  have none: "\<forall>i<maxAttempts. trialOf alwaysFails i = None"
    by (simp add: trialOf_def alwaysFails_def suggestNew_def)
  have some: "\<not> (\<forall>i<maxAttempts. trialOf failsTwice i = None)"
  proof
    assume "\<forall>i<maxAttempts. trialOf failsTwice i = None"
    then have "trialOf failsTwice 2 = None" by (simp add: maxAttempts_def)
    then show False by (simp add: trialOf_def failsTwice_def suggest_def)
  qed
  have key: "truthy (Some ''key'')"
    by simp
  have e: "truthy (Some ''key'') \<and> fst (collectTrials emptyArrays [] 0) \<noteq> []
        \<and> filter usableSample (fst (collectTrials emptyArrays [] 0)) = []"
    by (simp add: collect_emptyArrays usableSample_def trial_def)
  note a = all_trials_failed_iff [of "Some ''key''" alwaysFails]
  note b = all_trials_failed_iff [of "Some ''key''" failsTwice]
  note c = all_trials_failed_iff [of "Some ''key''" emptyArrays]
  from a have a1: "classifyFile (Some ''key'') alwaysFails = Inl AllTrialsFailed
      \<longleftrightarrow> truthy (Some ''key'') \<and> (\<forall>i<maxAttempts. trialOf alwaysFails i = None)"
    by (elim conjE)
  from a have a2: "(\<forall>i<maxAttempts. trialOf alwaysFails i = None)
      \<longleftrightarrow> collectTrials alwaysFails [] 0 = ([], maxAttempts)"
    by (elim conjE)
  from b have b1: "classifyFile (Some ''key'') failsTwice = Inl AllTrialsFailed
      \<longleftrightarrow> truthy (Some ''key'') \<and> (\<forall>i<maxAttempts. trialOf failsTwice i = None)"
    by (elim conjE)
  from c have c1: "truthy (Some ''key'') \<and> fst (collectTrials emptyArrays [] 0) \<noteq> []
        \<and> filter usableSample (fst (collectTrials emptyArrays [] 0)) = []
      \<longrightarrow> classifyFile (Some ''key'') emptyArrays = Inl NoValidSuggestions"
    by (elim conjE)
  from a1 key none have 1: "classifyFile (Some ''key'') alwaysFails = Inl AllTrialsFailed"
    by (simp only: simp_thms)
  from a2 none have "collectTrials alwaysFails [] 0 = ([], maxAttempts)"
    by (simp only: simp_thms)
  then have 2: "collectTrials alwaysFails [] 0 = ([], 6)"
    by (simp only: maxAttempts_def)
  from b1 some have 3: "classifyFile (Some ''key'') failsTwice \<noteq> Inl AllTrialsFailed"
    by (simp only: simp_thms)
  from c1 e have 4: "classifyFile (Some ''key'') emptyArrays = Inl NoValidSuggestions"
    by (rule mp)
  from 1 2 3 4 show ?thesis by (intro conjI)
qed

lemma collect_failsThenEmpty:
  "collectTrials failsThenEmpty [] 0 = ([trial [], trial [], trial []], 6)"
  by (simp add: collectTrials.simps failsThenEmpty_def maxAttempts_def trial_def)

text \<open>
  C9 as stated fails when the only responses that parse are empty arrays: after three
  failed calls and three empty arrays the budget of six is spent and no usable sample
  was obtained, yet the error raised is "No valid suggestions received from any trial"
  and not "All classification trials failed".
\<close>

theorem empty_arrays_after_failures:
  "collectTrials failsThenEmpty [] 0 = ([trial [], trial [], trial []], 6)
   \<and> maxAttempts = 6
   \<and> filter usableSample [trial [], trial [], trial []] = []
   \<and> classifyFile (Some ''key'') failsThenEmpty = Inl NoValidSuggestions
   \<and> classifyFile (Some ''key'') failsThenEmpty \<noteq> Inl AllTrialsFailed"
proof -
  have "classifyFile (Some ''key'') failsThenEmpty = Inl NoValidSuggestions"
    by (simp add: classifyFile_def collect_failsThenEmpty aggregateSuggestions_def trial_def
          normalizeConfidences_def grandTotal_def)
  with collect_failsThenEmpty empty_trials_not_usable show ?thesis
    by (simp add: maxAttempts_def)
qed

section \<open>Normalization\<close>

lemma foldl_add_sum_list:
  "foldl (\<lambda>sum item. sum + f item) acc xs = acc + sum_list (map f xs)"
  for acc :: rat
  by (induction xs arbitrary: acc) (simp_all add: add.assoc)

lemma grandTotal_sum_list:
  "grandTotal aggregated = sum_list (map (\<lambda>entry. totalConfidence (snd entry)) aggregated)"
  by (simp add: grandTotal_def foldl_add_sum_list comp_def)

lemma normalizeConfidences_nonzero:
  "grandTotal aggregated \<noteq> 0 \<Longrightarrow>
     normalizeConfidences aggregated =
       sort_key (\<lambda>n. - normalizedConfidence n)
         (map (normalizeItem (grandTotal aggregated)) aggregated)"
  by (simp add: normalizeConfidences_def)

lemma normalizeConfidences_zero:
  "grandTotal aggregated = 0 \<Longrightarrow> normalizeConfidences aggregated = []"
  by (simp add: normalizeConfidences_def)

lemma mset_normalizeConfidences:
  "grandTotal aggregated \<noteq> 0 \<Longrightarrow>
     mset (normalizeConfidences aggregated) =
       mset (map (normalizeItem (grandTotal aggregated)) aggregated)"
  by (simp add: normalizeConfidences_nonzero)

lemma normalizedConfidence_normalizeItem:
  "normalizedConfidence (normalizeItem g entry) = totalConfidence (snd entry) / g * 100"
  by (cases entry) (simp add: normalizeItem_def)

lemma sum_list_mset_cong:
  "mset xs = mset ys \<Longrightarrow> sum_list (map f xs) = sum_list (map f ys)"
  for f :: "'a \<Rightarrow> rat"
  by (metis mset_map sum_mset_sum_list)

lemma sum_normalized:
  assumes "grandTotal aggregated \<noteq> 0"
  shows "sum_list (map normalizedConfidence (normalizeConfidences aggregated)) = 100"
proof -
  let ?g = "grandTotal aggregated"
  have "sum_list (map normalizedConfidence (normalizeConfidences aggregated)) =
        sum_list (map normalizedConfidence (map (normalizeItem ?g) aggregated))"
    by (rule sum_list_mset_cong) (rule mset_normalizeConfidences [OF assms])
  also have "\<dots> = sum_list (map (\<lambda>entry. totalConfidence (snd entry) * (100 / ?g)) aggregated)"
    by (simp add: comp_def normalizedConfidence_normalizeItem)
  also have "\<dots> = sum_list (map (\<lambda>entry. totalConfidence (snd entry)) aggregated) * (100 / ?g)"
    by (rule sum_list_mult_const)
  also have "\<dots> = ?g * (100 / ?g)"
    by (simp only: grandTotal_sum_list)
  also have "\<dots> = 100"
    using assms by simp
  finally show ?thesis .
qed

lemma normalizeConfidences_Nil_iff:
  "normalizeConfidences aggregated = [] \<longleftrightarrow> aggregated = [] \<or> grandTotal aggregated = 0"
proof (cases "grandTotal aggregated = 0")
  case True
  then show ?thesis by (simp add: normalizeConfidences_zero)
next
  case False
  then have "length (normalizeConfidences aggregated) = length aggregated"
    by (simp add: normalizeConfidences_nonzero)
  with False show ?thesis by auto
qed

lemma sorted_normalizeConfidences:
  "sorted (map (\<lambda>n. - normalizedConfidence n) (normalizeConfidences aggregated))"
  by (simp add: normalizeConfidences_def Let_def)

text \<open>
  C4. Normalization returns the empty list exactly when the aggregate is empty or its
  grand total (the sum of all \<open>totalConfidence\<close>) is 0, and \<open>classifyFile\<close> then
  raises "No valid suggestions". Otherwise the ranked candidates are the aggregated
  entries, each with \<open>normalizedConfidence = totalConfidence / grandTotal * 100\<close>, and
  these values sum to exactly 100.
\<close>

theorem normalization_sums_to_100:
  "(normalizeConfidences aggregated = [] \<longleftrightarrow> aggregated = [] \<or> grandTotal aggregated = 0)
   \<and> grandTotal aggregated = sum_list (map (\<lambda>entry. totalConfidence (snd entry)) aggregated)
   \<and> (grandTotal aggregated \<noteq> 0 \<longrightarrow>
        mset (normalizeConfidences aggregated) =
          mset (map (normalizeItem (grandTotal aggregated)) aggregated)
        \<and> (\<forall>entry. normalizedConfidence (normalizeItem (grandTotal aggregated) entry) =
              totalConfidence (snd entry) / grandTotal aggregated * 100)
        \<and> sum_list (map normalizedConfidence (normalizeConfidences aggregated)) = 100)
   \<and> (classifyFile apiKey responses = Inl NoValidSuggestions \<longleftrightarrow>
        truthy apiKey \<and> fst (collectTrials responses [] 0) \<noteq> []
        \<and> (aggregateSuggestions (fst (collectTrials responses [] 0)) = []
           \<or> grandTotal (aggregateSuggestions (fst (collectTrials responses [] 0))) = 0))"
proof -
  have cf: "classifyFile apiKey responses = Inl NoValidSuggestions \<longleftrightarrow>
        truthy apiKey \<and> fst (collectTrials responses [] 0) \<noteq> []
        \<and> normalizeConfidences (aggregateSuggestions (fst (collectTrials responses [] 0))) = []"
    by (cases "collectTrials responses [] 0")
       (simp add: classifyFile_def split: list.splits)
  show ?thesis
    unfolding cf normalizeConfidences_Nil_iff
    using grandTotal_sum_list mset_normalizeConfidences sum_normalized
      normalizedConfidence_normalizeItem
    by blast
qed

lemmas key_defs = suggestionKey_def getPathKey_def JSON_stringify_def quote_string_def
  quote_char_def

lemmas example_defs = suggest_def suggestNew_def trial_def

lemma aggregate_agreeing:
  "aggregateSuggestions agreeing =
     [(JSON_stringify [''a''],
       \<lparr>path = [''a''], newFolderName = None, isNewFolder = False,
        totalConfidence = 180, count = 3\<rparr>),
      (JSON_stringify [''b''],
       \<lparr>path = [''b''], newFolderName = None, isNewFolder = False,
        totalConfidence = 95, count = 1\<rparr>)]"
  by (simp add: agreeing_def aggregateSuggestions_def addSuggestion_def key_defs example_defs)

lemma collect_zeroConfidence:
  "collectTrials zeroConfidence [] 0 =
     ([trial [suggest [''a''] 0], trial [suggest [''a''] 0], trial [suggest [''a''] 0]], 3)"
  by (simp add: collectTrials.simps zeroConfidence_def maxAttempts_def example_defs)

theorem normalization_sums_to_100_witness:
  "grandTotal (aggregateSuggestions agreeing) = 275
   \<and> sum_list (map normalizedConfidence (normalizeConfidences (aggregateSuggestions agreeing))) = 100
   \<and> map normalizedConfidence (normalizeConfidences (aggregateSuggestions agreeing)) = [720 / 11, 380 / 11]
   \<and> classifyFile (Some ''key'') emptyArrays = Inl NoValidSuggestions
   \<and> classifyFile (Some ''key'') zeroConfidence = Inl NoValidSuggestions"
proof -
  have g: "grandTotal (aggregateSuggestions agreeing) = 275"
    by (simp add: aggregate_agreeing grandTotal_def)
  then have nz: "grandTotal (aggregateSuggestions agreeing) \<noteq> 0"
    by simp
  have vals: "map normalizedConfidence (normalizeConfidences (aggregateSuggestions agreeing)) =
      [720 / 11, 380 / 11]"
    by (simp add: aggregate_agreeing normalizeConfidences_def grandTotal_def normalizeItem_def)
  have e: "truthy (Some ''key'') \<and> fst (collectTrials emptyArrays [] 0) \<noteq> []
        \<and> (aggregateSuggestions (fst (collectTrials emptyArrays [] 0)) = []
           \<or> grandTotal (aggregateSuggestions (fst (collectTrials emptyArrays [] 0))) = 0)"
    by (simp add: collect_emptyArrays aggregateSuggestions_def trial_def)
  have z: "truthy (Some ''key'') \<and> fst (collectTrials zeroConfidence [] 0) \<noteq> []
        \<and> (aggregateSuggestions (fst (collectTrials zeroConfidence [] 0)) = []
           \<or> grandTotal (aggregateSuggestions (fst (collectTrials zeroConfidence [] 0))) = 0)"
    by (simp add: collect_zeroConfidence aggregateSuggestions_def addSuggestion_def
          grandTotal_def key_defs example_defs)
  note a = normalization_sums_to_100 [of "aggregateSuggestions agreeing" "Some ''key''" emptyArrays]
  note b = normalization_sums_to_100 [of "aggregateSuggestions agreeing" "Some ''key''" zeroConfidence]
  from a nz have s: "sum_list (map normalizedConfidence
      (normalizeConfidences (aggregateSuggestions agreeing))) = 100"
    by (elim conjE) (simp only: simp_thms)
  from a e have ce: "classifyFile (Some ''key'') emptyArrays = Inl NoValidSuggestions"
    by (elim conjE) (simp only: simp_thms)
  from b z have cz: "classifyFile (Some ''key'') zeroConfidence = Inl NoValidSuggestions"
    by (elim conjE) (simp only: simp_thms)
  from g s vals ce cz show ?thesis by (intro conjI)
qed

section \<open>Aggregation by candidate key\<close>

lemma map_of_addSuggestion:
  "map_of (addSuggestion acc s) k =
     (if k = suggestionKey s
      then Some (case map_of acc k of
                   Some e \<Rightarrow> addToEntry e [s]
                 | None \<Rightarrow> seedEntry s)
      else map_of acc k)"
  by (simp add: addSuggestion_def Let_def update_conv' seedEntry_def addToEntry_def
        split: option.splits)

lemma addSuggestion_update:
  "addSuggestion acc s =
     AList.update (suggestionKey s)
       (case map_of acc (suggestionKey s) of
          Some e \<Rightarrow> addToEntry e [s]
        | None \<Rightarrow> seedEntry s) acc"
  by (simp add: addSuggestion_def Let_def seedEntry_def addToEntry_def split: option.splits)

lemma distinct_addSuggestion:
  "distinct (map fst acc) \<Longrightarrow> distinct (map fst (addSuggestion acc s))"
  by (simp add: addSuggestion_def Let_def distinct_update split: option.splits)

lemma addToEntry_Nil [simp]: "addToEntry e [] = e"
  by (simp add: addToEntry_def)

lemma addToEntry_Cons: "addToEntry (addToEntry e [s]) suggs = addToEntry e (s # suggs)"
  by (simp add: addToEntry_def add.assoc)

lemma map_of_foldl_addSuggestion:
  "map_of (foldl addSuggestion acc suggs) k =
     (case map_of acc k of
        Some e \<Rightarrow> Some (addToEntry e (withKey k suggs))
      | None \<Rightarrow>
          (case withKey k suggs of
             [] \<Rightarrow> None
           | first # later \<Rightarrow> Some (addToEntry (seedEntry first) later)))"
proof (induction suggs arbitrary: acc)
  case Nil
  show ?case by (simp add: withKey_def split: option.splits)
next
  case (Cons s suggs)
  show ?case
  proof (cases "k = suggestionKey s")
    case True
    then have wk: "withKey k (s # suggs) = s # withKey k suggs"
      by (simp add: withKey_def)
    show ?thesis
      by (simp add: Cons.IH map_of_addSuggestion True [symmetric] wk addToEntry_Cons
            split: option.splits)
  next
    case False
    then have wk: "withKey k (s # suggs) = withKey k suggs"
      by (auto simp: withKey_def)
    show ?thesis
      by (simp add: Cons.IH map_of_addSuggestion False wk split: option.splits)
  qed
qed

lemma distinct_foldl_addSuggestion:
  "distinct (map fst acc) \<Longrightarrow> distinct (map fst (foldl addSuggestion acc suggs))"
  by (induction suggs arbitrary: acc) (simp_all add: distinct_addSuggestion)

lemma aggregateSuggestions_flat:
  "foldl (\<lambda>aggregated trial. foldl addSuggestion aggregated (suggestions trial)) acc trials =
     foldl addSuggestion acc (allSuggestions trials)"
  by (induction trials arbitrary: acc) (simp_all add: allSuggestions_def)

lemma map_of_aggregateSuggestions:
  "map_of (aggregateSuggestions trials) k =
     (case withKey k (allSuggestions trials) of
        [] \<Rightarrow> None
      | first # later \<Rightarrow> Some (addToEntry (seedEntry first) later))"
  by (simp add: aggregateSuggestions_def aggregateSuggestions_flat map_of_foldl_addSuggestion)

lemma distinct_aggregateSuggestions:
  "distinct (map fst (aggregateSuggestions trials))"
  by (simp add: aggregateSuggestions_def aggregateSuggestions_flat distinct_foldl_addSuggestion)

lemma withKey_allSuggestions_length:
  "length (withKey k (allSuggestions trials)) =
     sum_list (map (\<lambda>t. length (withKey k (suggestions t))) trials)"
  by (induction trials) (simp_all add: allSuggestions_def withKey_def)

lemma samplesProposing_le: "samplesProposing k trials \<le> length trials"
  by (simp add: samplesProposing_def)

lemma count_is_samplesProposing:
  "\<forall>t \<in> set trials. length (withKey k (suggestions t)) \<le> 1 \<Longrightarrow>
     length (withKey k (allSuggestions trials)) = samplesProposing k trials"
proof (induction trials)
  case Nil
  show ?case by (simp add: allSuggestions_def withKey_def samplesProposing_def)
next
  case (Cons t trials)
  then have one: "length (withKey k (suggestions t)) \<le> 1" by simp
  have "length (withKey k (suggestions t)) = (if withKey k (suggestions t) \<noteq> [] then 1 else 0)"
    using one by (cases "withKey k (suggestions t)") simp_all
  moreover have "length (withKey k (allSuggestions trials)) = samplesProposing k trials"
    using Cons by simp
  ultimately show ?case
    by (simp add: withKey_allSuggestions_length samplesProposing_def)
qed

lemma entry_total_count:
  assumes "map_of (aggregateSuggestions trials) k = Some e"
  shows "totalConfidence e = sum_list (map confidence (withKey k (allSuggestions trials)))"
    and "Aggregated.count e = length (withKey k (allSuggestions trials))"
    and "getPathKey (path e) (newFolderName e) (isNewFolder e) = k"
proof -
  from assms obtain first later where
    wk: "withKey k (allSuggestions trials) = first # later"
    and e: "e = addToEntry (seedEntry first) later"
    by (auto simp: map_of_aggregateSuggestions split: list.splits)
  from wk have "first \<in> set (withKey k (allSuggestions trials))" by simp
  then have key: "suggestionKey first = k" by (simp add: withKey_def)
  show "totalConfidence e = sum_list (map confidence (withKey k (allSuggestions trials)))"
    by (simp add: wk e addToEntry_def seedEntry_def)
  show "Aggregated.count e = length (withKey k (allSuggestions trials))"
    by (simp add: wk e addToEntry_def seedEntry_def)
  show "getPathKey (path e) (newFolderName e) (isNewFolder e) = k"
    using key by (simp add: e addToEntry_def seedEntry_def suggestionKey_def)
qed

text \<open>
  What the aggregator holds for a key, in exact arithmetic. The aggregate has one entry
  per candidate key (keys are distinct). A key that no suggestion carries has no entry.
  Otherwise the entry takes \<open>path\<close>, \<open>newFolderName\<close> and \<open>isNewFolder\<close> from the first
  suggestion with that key, its \<open>totalConfidence\<close> is the sum of the confidences of all
  suggestions with that key, and its \<open>count\<close> is the number of those suggestions, over
  all samples. The count is the number of samples proposing the key whenever no sample
  carries the key more than once.
\<close>

lemma entries_per_key:
  "distinct (map fst (aggregateSuggestions trials))
   \<and> map_of (aggregateSuggestions trials) k =
       (case withKey k (allSuggestions trials) of
          [] \<Rightarrow> None
        | first # later \<Rightarrow>
            Some \<lparr>path = path first, newFolderName = newFolderName first,
                  isNewFolder = isNewFolder first,
                  totalConfidence = confidence first + sum_list (map confidence later),
                  count = 1 + length later\<rparr>)
   \<and> (\<forall>e. map_of (aggregateSuggestions trials) k = Some e \<longrightarrow>
          totalConfidence e = sum_list (map confidence (withKey k (allSuggestions trials)))
          \<and> Aggregated.count e = length (withKey k (allSuggestions trials))
          \<and> ((\<forall>t \<in> set trials. length (withKey k (suggestions t)) \<le> 1) \<longrightarrow>
                Aggregated.count e = samplesProposing k trials))"
proof -
  have "map_of (aggregateSuggestions trials) k =
       (case withKey k (allSuggestions trials) of
          [] \<Rightarrow> None
        | first # later \<Rightarrow>
            Some \<lparr>path = path first, newFolderName = newFolderName first,
                  isNewFolder = isNewFolder first,
                  totalConfidence = confidence first + sum_list (map confidence later),
                  count = 1 + length later\<rparr>)"
    by (simp add: map_of_aggregateSuggestions addToEntry_def seedEntry_def split: list.splits)
  then show ?thesis
    using distinct_aggregateSuggestions [of trials] entry_total_count(1,2) [of trials k]
      count_is_samplesProposing [of trials k]
    by (simp only:) simp
qed

text \<open>
  C7. The claim reads the count of an entry as the number of samples that proposed its
  key, and so does the code that consumes the count ("appears in 2+ trials",
  "suggested in all 3 trials", "new folder suggested in only one trial"). The
  aggregator increments the count once for every suggestion: a single sample with two
  suggestions for the same folder gives that key the count 2, while one sample
  proposed it. The total, 80, is the sum of the two confidences, as the claim says.
\<close>

theorem repeated_key_counted_twice:
  "map_of (aggregateSuggestions repeatsKey) (JSON_stringify [''a'']) =
     Some \<lparr>path = [''a''], newFolderName = None, isNewFolder = False,
           totalConfidence = 80, count = 2\<rparr>
   \<and> samplesProposing (JSON_stringify [''a'']) repeatsKey = 1"
  by (simp add: repeatsKey_def aggregateSuggestions_def addSuggestion_def samplesProposing_def
        withKey_def key_defs example_defs)

lemma agreeing_samples_example:
  "map_of (aggregateSuggestions agreeing) (JSON_stringify [''a'']) =
     Some \<lparr>path = [''a''], newFolderName = None, isNewFolder = False,
           totalConfidence = 180, count = 3\<rparr>
   \<and> map_of (aggregateSuggestions agreeing) (JSON_stringify [''b'']) =
     Some \<lparr>path = [''b''], newFolderName = None, isNewFolder = False,
           totalConfidence = 95, count = 1\<rparr>
   \<and> samplesProposing (JSON_stringify [''a'']) agreeing = 3
   \<and> map path (normalizeConfidences (aggregateSuggestions agreeing)) = [[''a''], [''b'']]"
proof -
  have wa: "withKey (JSON_stringify [''a'']) (allSuggestions agreeing) =
      [suggest [''a''] 60, suggest [''a''] 60, suggest [''a''] 60]"
    by (simp add: agreeing_def allSuggestions_def withKey_def key_defs example_defs)
  have wb: "withKey (JSON_stringify [''b'']) (allSuggestions agreeing) = [suggest [''b''] 95]"
    by (simp add: agreeing_def allSuggestions_def withKey_def key_defs example_defs)
  have one: "\<forall>t \<in> set agreeing. length (withKey (JSON_stringify [''a'']) (suggestions t)) \<le> 1"
    by (simp add: agreeing_def withKey_def key_defs example_defs)
  note a = entries_per_key [of agreeing "JSON_stringify [''a'']"]
  note b = entries_per_key [of agreeing "JSON_stringify [''b'']"]
  from a have ma: "map_of (aggregateSuggestions agreeing) (JSON_stringify [''a'']) =
     Some \<lparr>path = [''a''], newFolderName = None, isNewFolder = False,
           totalConfidence = 180, count = 3\<rparr>"
    by (elim conjE) (simp add: wa suggest_def)
  from b have mb: "map_of (aggregateSuggestions agreeing) (JSON_stringify [''b'']) =
     Some \<lparr>path = [''b''], newFolderName = None, isNewFolder = False,
           totalConfidence = 95, count = 1\<rparr>"
    by (elim conjE) (simp add: wb suggest_def)
  from a have "\<forall>e. map_of (aggregateSuggestions agreeing) (JSON_stringify [''a'']) = Some e \<longrightarrow>
      ((\<forall>t \<in> set agreeing. length (withKey (JSON_stringify [''a'']) (suggestions t)) \<le> 1) \<longrightarrow>
         Aggregated.count e = samplesProposing (JSON_stringify [''a'']) agreeing)"
    by (elim conjE) blast
  from this [THEN spec, THEN mp, OF ma, THEN mp, OF one]
  have sp: "samplesProposing (JSON_stringify [''a'']) agreeing = 3"
    by simp
  have rank: "map path (normalizeConfidences (aggregateSuggestions agreeing)) = [[''a''], [''b'']]"
    by (simp add: aggregate_agreeing normalizeConfidences_def grandTotal_def normalizeItem_def)
  from ma mb sp rank show ?thesis by (intro conjI)
qed

text \<open>
  C10. The candidate key is not injective. A suggestion for the existing folder whose
  last path segment is \<open>NEW:\<close> followed by a name, and a new-folder suggestion with
  that name under the remaining prefix, are different valid suggestions with the same
  key; the aggregator merges them into one entry whose \<open>path\<close>, \<open>newFolderName\<close> and
  \<open>isNewFolder\<close> are those of the one seen first.
\<close>

theorem candidate_key_collision:
  assumes "name \<noteq> []" and "0 \<le> c1" and "c1 \<le> 100" and "0 \<le> c2" and "c2 \<le> 100"
  shows "suggest (p @ [''NEW:'' @ name]) c1 \<noteq> suggestNew p name c2
    \<and> validateSuggestions [suggest (p @ [''NEW:'' @ name]) c1, suggestNew p name c2] = None
    \<and> suggestionKey (suggest (p @ [''NEW:'' @ name]) c1) = suggestionKey (suggestNew p name c2)
    \<and> aggregateSuggestions [trial [suggest (p @ [''NEW:'' @ name]) c1, suggestNew p name c2]] =
        [(JSON_stringify (p @ [''NEW:'' @ name]),
          \<lparr>path = p @ [''NEW:'' @ name], newFolderName = None, isNewFolder = False,
           totalConfidence = c1 + c2, count = 2\<rparr>)]
    \<and> aggregateSuggestions [trial [suggestNew p name c2], trial [suggest (p @ [''NEW:'' @ name]) c1]] =
        [(JSON_stringify (p @ [''NEW:'' @ name]),
          \<lparr>path = p, newFolderName = Some name, isNewFolder = True,
           totalConfidence = c2 + c1, count = 2\<rparr>)]"
proof -
  have k1: "suggestionKey (suggest (p @ [''NEW:'' @ name]) c1) = JSON_stringify (p @ [''NEW:'' @ name])"
    by (simp add: suggestionKey_def getPathKey_def suggest_def)
  have k2: "suggestionKey (suggestNew p name c2) = JSON_stringify (p @ [''NEW:'' @ name])"
    using assms(1) by (simp add: suggestionKey_def getPathKey_def suggestNew_def)
  have ne: "suggest (p @ [''NEW:'' @ name]) c1 \<noteq> suggestNew p name c2"
    by (simp add: suggest_def suggestNew_def)
  have valid: "validateSuggestions [suggest (p @ [''NEW:'' @ name]) c1, suggestNew p name c2] = None"
    using assms by (simp add: suggest_def suggestNew_def)
  have a1: "aggregateSuggestions [trial [suggest (p @ [''NEW:'' @ name]) c1, suggestNew p name c2]] =
        [(JSON_stringify (p @ [''NEW:'' @ name]),
          \<lparr>path = p @ [''NEW:'' @ name], newFolderName = None, isNewFolder = False,
           totalConfidence = c1 + c2, count = 2\<rparr>)]"
    using assms(1)
    by (simp add: aggregateSuggestions_def addSuggestion_update trial_def suggestionKey_def
          getPathKey_def seedEntry_def addToEntry_def suggest_def suggestNew_def)
  have a2: "aggregateSuggestions [trial [suggestNew p name c2], trial [suggest (p @ [''NEW:'' @ name]) c1]] =
        [(JSON_stringify (p @ [''NEW:'' @ name]),
          \<lparr>path = p, newFolderName = Some name, isNewFolder = True,
           totalConfidence = c2 + c1, count = 2\<rparr>)]"
    using assms(1)
    by (simp add: aggregateSuggestions_def addSuggestion_update trial_def suggestionKey_def
          getPathKey_def seedEntry_def addToEntry_def suggest_def suggestNew_def)
  from ne valid k1 k2 a1 a2 show ?thesis by simp
qed

theorem candidate_key_collision_witness:
  "suggest [''Projects'', ''NEW:Solar''] 70 \<noteq> suggestNew [''Projects''] ''Solar'' 60
   \<and> suggestionKey (suggest [''Projects'', ''NEW:Solar''] 70) =
       suggestionKey (suggestNew [''Projects''] ''Solar'' 60)
   \<and> aggregateSuggestions
        [trial [suggest [''Projects'', ''NEW:Solar''] 70, suggestNew [''Projects''] ''Solar'' 60]] =
        [(JSON_stringify [''Projects'', ''NEW:Solar''],
          \<lparr>path = [''Projects'', ''NEW:Solar''], newFolderName = None, isNewFolder = False,
           totalConfidence = 130, count = 2\<rparr>)]"
proof -
  have h: "''Solar'' \<noteq> []" "(0::rat) \<le> 70" "(70::rat) \<le> 100" "(0::rat) \<le> 60" "(60::rat) \<le> 100"
    by simp_all
  from candidate_key_collision [OF h, of "[''Projects'']"] show ?thesis by simp
qed

section \<open>New-folder caution\<close>

lemma newFolderNeedsReview_iff:
  assumes "isNewFolder t"
  shows "newFolderNeedsReview t a tr \<longleftrightarrow> Normalized.count t < 3 \<or> normalizedConfidence t < 50"
proof -
  have "\<not> isNewFolderSuggestedMultipleTimes (t # a) tr \<Longrightarrow> Normalized.count t < 3"
    using assms
    by (auto simp: isNewFolderSuggestedMultipleTimes_def Let_def list_ex_iff split: if_splits)
  then show ?thesis
    using assms by (auto simp: newFolderNeedsReview_def)
qed

lemma length_filter_distinct_map:
  "distinct (map f xs) \<Longrightarrow> length (filter (\<lambda>x. f x = k) xs) \<le> 1"
proof (induction xs)
  case Nil
  show ?case by simp
next
  case (Cons x xs)
  show ?case
  proof (cases "f x = k")
    case True
    from Cons.prems have "f x \<notin> f ` set xs" by simp
    with True have "\<forall>y \<in> set xs. f y \<noteq> k" by (metis image_eqI)
    then have "filter (\<lambda>x. f x = k) xs = []" by (simp add: filter_empty_conv)
    with True show ?thesis by simp
  next
    case False
    with Cons show ?thesis by simp
  qed
qed

lemma ranked_from_entry:
  assumes "n \<in> set (normalizeConfidences aggregated)"
  shows "\<exists>k e. (k, e) \<in> set aggregated \<and> n = normalizeItem (grandTotal aggregated) (k, e)"
proof (cases "grandTotal aggregated = 0")
  case True
  with assms show ?thesis by (simp add: normalizeConfidences_zero)
next
  case False
  with assms have "n \<in> set (map (normalizeItem (grandTotal aggregated)) aggregated)"
    by (simp add: normalizeConfidences_nonzero)
  then show ?thesis by auto
qed

lemma ranked_count_le_trials:
  assumes n: "n \<in> set (normalizeConfidences (aggregateSuggestions trials))"
    and nodup: "\<forall>t \<in> set trials. distinct (map suggestionKey (suggestions t))"
  shows "Normalized.count n \<le> length trials"
proof -
  from ranked_from_entry [OF n] obtain k e where
    ke: "(k, e) \<in> set (aggregateSuggestions trials)"
    and n_def: "n = normalizeItem (grandTotal (aggregateSuggestions trials)) (k, e)"
    by blast
  from ke have m: "map_of (aggregateSuggestions trials) k = Some e"
    using distinct_aggregateSuggestions [of trials] by simp
  have "\<forall>t \<in> set trials. length (withKey k (suggestions t)) \<le> 1"
  proof
    fix t assume "t \<in> set trials"
    with nodup have "distinct (map suggestionKey (suggestions t))" by blast
    then show "length (withKey k (suggestions t)) \<le> 1"
      unfolding withKey_def by (rule length_filter_distinct_map)
  qed
  then have "length (withKey k (allSuggestions trials)) = samplesProposing k trials"
    by (rule count_is_samplesProposing)
  with entry_total_count(2) [OF m] have "Aggregated.count e \<le> length trials"
    using samplesProposing_le [of k trials] by simp
  then show ?thesis by (simp add: n_def normalizeItem_def)
qed

text \<open>
  The rule of the code for a new-folder top candidate: the verdict is dominant only if
  the candidate's count is at least 3 and its normalized confidence is at least 50, and
  the reason "new folder suggestion needs verification" is recorded exactly when one of
  the two fails. The loop collects at most 3 trials, and the count is at most the
  number of trials when no trial carries the same key twice.
\<close>

lemma new_folder_rule:
  assumes "collectTrials responses [] 0 = (trials, attempts)"
    and "normalizeConfidences (aggregateSuggestions trials) = topItem # alts"
    and "isNewFolder topItem"
  shows "(isDominant (decide topItem alts trials) \<longrightarrow>
            3 \<le> Normalized.count topItem \<and> 50 \<le> normalizedConfidence topItem)
    \<and> (''new folder suggestion needs verification'' \<in> set (reviewReasons topItem alts trials)
          \<longleftrightarrow> Normalized.count topItem < 3 \<or> normalizedConfidence topItem < 50)
    \<and> length trials \<le> 3
    \<and> ((\<forall>t \<in> set trials. distinct (map suggestionKey (suggestions t))) \<longrightarrow>
          Normalized.count topItem \<le> length trials)"
proof -
  note nfr = newFolderNeedsReview_iff [OF assms(3), of alts trials]
  have dom: "isDominant (decide topItem alts trials) \<longrightarrow>
            3 \<le> Normalized.count topItem \<and> 50 \<le> normalizedConfidence topItem"
    unfolding isDominant_decide nfr by auto
  have reason: "''new folder suggestion needs verification'' \<in> set (reviewReasons topItem alts trials)
          \<longleftrightarrow> Normalized.count topItem < 3 \<or> normalizedConfidence topItem < 50"
    unfolding unverified_in_reasons nfr ..
  have len: "length trials \<le> 3"
  proof (cases attempts)
    case 0
    with collectTrials_from_start(1) [OF assms(1)] show ?thesis by simp
  next
    case (Suc m)
    with collectTrials_from_start(4) [OF assms(1)]
    have "length (collectedTrials responses 0 m) < 3" by simp
    moreover have "length trials \<le> Suc (length (collectedTrials responses 0 m))"
      using collectTrials_from_start(1) [OF assms(1)] Suc
      by (simp add: collectedTrials_last split: option.splits)
    ultimately show ?thesis by simp
  qed
  have top_in: "topItem \<in> set (normalizeConfidences (aggregateSuggestions trials))"
    by (simp add: assms(2))
  have cnt: "(\<forall>t \<in> set trials. distinct (map suggestionKey (suggestions t))) \<longrightarrow>
          Normalized.count topItem \<le> length trials"
    using ranked_count_le_trials [OF top_in] by blast
  from dom reason len cnt show ?thesis by (intro conjI)
qed

text \<open>
  So, as long as no trial carries the same key twice, the code does what C2 says: a
  dominant new-folder top candidate has a count equal to the number of trials
  collected and a normalized confidence of at least 50, and the reason is recorded
  when one of the two fails.
\<close>

lemma new_folder_claim_without_repeats:
  assumes "collectTrials responses [] 0 = (trials, attempts)"
    and "normalizeConfidences (aggregateSuggestions trials) = topItem # alts"
    and "isNewFolder topItem"
    and "\<forall>t \<in> set trials. distinct (map suggestionKey (suggestions t))"
  shows "(isDominant (decide topItem alts trials) \<longrightarrow>
            Normalized.count topItem = length trials \<and> 50 \<le> normalizedConfidence topItem)
    \<and> (Normalized.count topItem \<noteq> length trials \<or> normalizedConfidence topItem < 50 \<longrightarrow>
          ''new folder suggestion needs verification'' \<in> set (reviewReasons topItem alts trials))"
proof -
  note r = new_folder_rule [OF assms(1,2,3)]
  from r assms(4) have le: "Normalized.count topItem \<le> length trials" "length trials \<le> 3"
    by blast+
  from r have dom: "isDominant (decide topItem alts trials) \<longrightarrow>
            3 \<le> Normalized.count topItem \<and> 50 \<le> normalizedConfidence topItem"
    by (elim conjE)
  from r have reason:
    "''new folder suggestion needs verification'' \<in> set (reviewReasons topItem alts trials)
       \<longleftrightarrow> Normalized.count topItem < 3 \<or> normalizedConfidence topItem < 50"
    by (elim conjE)
  from dom le have 1: "isDominant (decide topItem alts trials) \<longrightarrow>
            Normalized.count topItem = length trials \<and> 50 \<le> normalizedConfidence topItem"
    by auto
  from le have "Normalized.count topItem \<noteq> length trials \<Longrightarrow> Normalized.count topItem < 3"
    by simp
  with reason have 2:
    "Normalized.count topItem \<noteq> length trials \<or> normalizedConfidence topItem < 50 \<longrightarrow>
       ''new folder suggestion needs verification'' \<in> set (reviewReasons topItem alts trials)"
    by blast
  from 1 2 show ?thesis ..
qed

lemma collect_repeatsNewFolder:
  "collectTrials repeatsNewFolder [] 0 = ([repeatedTrial], 6)"
  by (simp add: collectTrials.simps repeatsNewFolder_def repeatedTrial_def maxAttempts_def
        example_defs)

lemma ranked_repeatedTrial:
  "normalizeConfidences (aggregateSuggestions [repeatedTrial]) =
     [\<lparr>path = [''a''], newFolderName = Some ''x'', isNewFolder = True,
       normalizedConfidence = 100, count = 3\<rparr>]"
  by (simp add: repeatedTrial_def aggregateSuggestions_def addSuggestion_def
        normalizeConfidences_def grandTotal_def normalizeItem_def key_defs example_defs)

text \<open>
  C2. A new-folder top choice must be proposed by every sample collected to be
  dominant, and the code says the same of itself ("always needs review unless
  suggested in all 3 trials"). The code misses it when a trial repeats a key: with one
  trial that lists the same new folder three times, and five failed invocations, the
  candidate's count is 3 although one sample was collected, no reason is recorded and
  the verdict is dominant.
\<close>

theorem repeated_new_folder_dominant:
  "collectTrials repeatsNewFolder [] 0 = ([repeatedTrial], 6)
   \<and> length [repeatedTrial] = 1
   \<and> normalizeConfidences (aggregateSuggestions [repeatedTrial]) =
       [\<lparr>path = [''a''], newFolderName = Some ''x'', isNewFolder = True,
         normalizedConfidence = 100, count = 3\<rparr>]
   \<and> classifyFile (Some ''key'') repeatsNewFolder =
       Inr \<lparr>topChoice = \<lparr>path = [''a''], newFolderName = Some ''x'', isNewFolder = True,
                          normalizedConfidence = 100\<rparr>,
            alternatives = [], isDominant = True, needsReview = False,
            reviewReason = None, rawTrials = [repeatedTrial]\<rparr>"
proof -
  have "classifyFile (Some ''key'') repeatsNewFolder =
       Inr \<lparr>topChoice = \<lparr>path = [''a''], newFolderName = Some ''x'', isNewFolder = True,
                          normalizedConfidence = 100\<rparr>,
            alternatives = [], isDominant = True, needsReview = False,
            reviewReason = None, rawTrials = [repeatedTrial]\<rparr>"
    by (simp add: classifyFile_def collect_repeatsNewFolder ranked_repeatedTrial decide_def
          Let_def reviewReasons_def absoluteThreshold_def relativeDominance_def
          newFolderNeedsReview_def hasNewFolderInSingleTrial_def
          isNewFolderSuggestedMultipleTimes_def toChoice_def)
  with collect_repeatsNewFolder ranked_repeatedTrial show ?thesis by simp
qed

text \<open>
  The key collision of C10 has the same effect without any repeated key: two trials
  propose the new folder \<open>x\<close> under \<open>a\<close>, a third proposes the existing folder
  \<open>a/NEW:x\<close>; the three are merged under one key, the new folder has count 3 and the
  verdict is dominant, although two of the three samples proposed the new folder.
\<close>

lemma collision_counts_as_third_sample:
  "collectTrials collidingThird [] 0 =
     ([trial [suggestNew [''a''] ''x'' 90], trial [suggestNew [''a''] ''x'' 90],
       trial [suggest [''a'', ''NEW:x''] 90]], 3)
   \<and> normalizeConfidences (aggregateSuggestions
         [trial [suggestNew [''a''] ''x'' 90], trial [suggestNew [''a''] ''x'' 90],
          trial [suggest [''a'', ''NEW:x''] 90]]) =
       [\<lparr>path = [''a''], newFolderName = Some ''x'', isNewFolder = True,
         normalizedConfidence = 100, count = 3\<rparr>]
   \<and> classifyFile (Some ''key'') collidingThird =
       Inr \<lparr>topChoice = \<lparr>path = [''a''], newFolderName = Some ''x'', isNewFolder = True,
                          normalizedConfidence = 100\<rparr>,
            alternatives = [], isDominant = True, needsReview = False,
            reviewReason = None,
            rawTrials = [trial [suggestNew [''a''] ''x'' 90], trial [suggestNew [''a''] ''x'' 90],
                         trial [suggest [''a'', ''NEW:x''] 90]]\<rparr>"
proof -
  have c: "collectTrials collidingThird [] 0 =
     ([trial [suggestNew [''a''] ''x'' 90], trial [suggestNew [''a''] ''x'' 90],
       trial [suggest [''a'', ''NEW:x''] 90]], 3)"
    by (simp add: collectTrials.simps collidingThird_def maxAttempts_def example_defs)
  have r: "normalizeConfidences (aggregateSuggestions
         [trial [suggestNew [''a''] ''x'' 90], trial [suggestNew [''a''] ''x'' 90],
          trial [suggest [''a'', ''NEW:x''] 90]]) =
       [\<lparr>path = [''a''], newFolderName = Some ''x'', isNewFolder = True,
         normalizedConfidence = 100, count = 3\<rparr>]"
    by (simp add: aggregateSuggestions_def addSuggestion_def
          normalizeConfidences_def grandTotal_def normalizeItem_def key_defs example_defs)
  have "classifyFile (Some ''key'') collidingThird =
       Inr \<lparr>topChoice = \<lparr>path = [''a''], newFolderName = Some ''x'', isNewFolder = True,
                          normalizedConfidence = 100\<rparr>,
            alternatives = [], isDominant = True, needsReview = False,
            reviewReason = None,
            rawTrials = [trial [suggestNew [''a''] ''x'' 90], trial [suggestNew [''a''] ''x'' 90],
                         trial [suggest [''a'', ''NEW:x''] 90]]\<rparr>"
    by (simp add: classifyFile_def c r decide_def
          Let_def reviewReasons_def absoluteThreshold_def relativeDominance_def
          newFolderNeedsReview_def hasNewFolderInSingleTrial_def
          isNewFolderSuggestedMultipleTimes_def toChoice_def)
  with c r show ?thesis by (intro conjI)
qed

section \<open>Ranking and the order of the samples\<close>



































end
